theory Spec2Isabelle
  imports Main "HOL-Library.AList" "HOL-Library.Sublist"
begin

section \<open>Embedding of \<open>src/index.ts\<close>\<close>

text \<open>
  A JavaScript \<open>Set\<close> iterates in insertion order and ignores a second insertion of an
  element; it is a list without duplicates. A JavaScript \<open>Map\<close> iterates in insertion
  order of its keys, and \<open>set\<close> on a key already present replaces the value where the key
  stands; it is an association list with distinct keys. Strings are \<open>string\<close>;
  \<open>null\<close> is \<open>None\<close>.
\<close>

subsection \<open>Sets and maps of the run-time library\<close>

definition Set_add :: "'a \<Rightarrow> 'a list \<Rightarrow> 'a list" where
  "Set_add x xs = (if x \<in> set xs then xs else xs @ [x])"

definition Set_delete :: "'a \<Rightarrow> 'a list \<Rightarrow> 'a list" where
  "Set_delete x xs = removeAll x xs"

definition Set_new :: "'a list \<Rightarrow> 'a list" where
  "Set_new xs = fold Set_add xs []"

definition Map_set :: "'k \<Rightarrow> 'v \<Rightarrow> ('k \<times> 'v) list \<Rightarrow> ('k \<times> 'v) list" where
  "Map_set k v m = AList.update k v m"

definition Map_delete :: "'k \<Rightarrow> ('k \<times> 'v) list \<Rightarrow> ('k \<times> 'v) list" where
  "Map_delete k m = AList.delete k m"

definition Map_has :: "('k \<times> 'v) list \<Rightarrow> 'k \<Rightarrow> bool" where
  "Map_has m k = (k \<in> fst ` set m)"

definition Map_get :: "('k \<times> 'v) list \<Rightarrow> 'k \<Rightarrow> 'v option" where
  "Map_get m k = map_of m k"

definition Map_new :: "('k \<times> 'v) list \<Rightarrow> ('k \<times> 'v) list" where
  "Map_new entries = fold (\<lambda>(k, v). Map_set k v) entries []"

text \<open>\<open>Array.prototype.join\<close> on an array of strings.\<close>

fun join :: "string \<Rightarrow> string list \<Rightarrow> string" where
  "join sep [] = []"
| "join sep [x] = x"
| "join sep (x # y # ys) = x @ sep @ join sep (y # ys)"

subsection \<open>\<open>camelToSnakeCase\<close> (lines 3-7)\<close>

definition upperAZ :: string where
  "upperAZ = ''ABCDEFGHIJKLMNOPQRSTUVWXYZ''"

definition lowerAZ :: string where
  "lowerAZ = ''abcdefghijklmnopqrstuvwxyz''"

definition isUpperAZ :: "char \<Rightarrow> bool" where
  "isUpperAZ c = (c \<in> set upperAZ)"

text \<open>
  \<open>text.split(/(?=[A-Z])/)\<close>: the text is cut before every letter \<open>A\<close>..\<open>Z\<close> except one
  at index 0 (an empty match at the start of a piece is skipped), and the empty text
  gives the one piece \<open>""\<close>.
\<close>

fun splitBeforeUpper :: "string \<Rightarrow> string list" where
  "splitBeforeUpper [] = [[]]"
| "splitBeforeUpper [c] = [[c]]"
| "splitBeforeUpper (c # d # cs) =
     (if isUpperAZ d then [c] # splitBeforeUpper (d # cs)
      else (case splitBeforeUpper (d # cs) of
              [] \<Rightarrow> [[c]]
            | p # ps \<Rightarrow> (c # p) # ps))"

text \<open>
  \<open>String.prototype.toUpperCase\<close> and \<open>toLowerCase\<close> belong to the run-time library,
  not to the repository. On a string of ASCII characters they map the letters \<open>a\<close>..\<open>z\<close>
  and \<open>A\<close>..\<open>Z\<close> and leave every other character as it is. What they return for a
  string with a character outside ASCII (other letters, one character becoming two) is
  not written out here: it is the parameter \<open>lib\<close> of every function that calls them.
\<close>

datatype caseMapping = CaseMapping
  (upperOf: "string \<Rightarrow> string")
  (lowerOf: "string \<Rightarrow> string")

definition isAscii :: "char \<Rightarrow> bool" where
  "isAscii c = ((of_char c :: nat) < 128)"

definition toUpperChar :: "char \<Rightarrow> char" where
  "toUpperChar c = (case map_of (zip lowerAZ upperAZ) c of None \<Rightarrow> c | Some u \<Rightarrow> u)"

definition toLowerChar :: "char \<Rightarrow> char" where
  "toLowerChar c = (case map_of (zip upperAZ lowerAZ) c of None \<Rightarrow> c | Some l \<Rightarrow> l)"

definition toUpperCase :: "caseMapping \<Rightarrow> string \<Rightarrow> string" where
  "toUpperCase lib s = (if list_all isAscii s then map toUpperChar s else upperOf lib s)"

definition toLowerCase :: "caseMapping \<Rightarrow> string \<Rightarrow> string" where
  "toLowerCase lib s = (if list_all isAscii s then map toLowerChar s else lowerOf lib s)"

definition camelToSnakeCase :: "caseMapping \<Rightarrow> string \<Rightarrow> bool \<Rightarrow> string" where
  "camelToSnakeCase lib text toUpper =
     (let result = join ''_'' (splitBeforeUpper text)
      in if toUpper then toUpperCase lib result else toLowerCase lib result)"

subsection \<open>The class \<open>SchemaBuilder\<close>\<close>

text \<open>
  The fields of the class, in the order of their declaration after \<open>name\<close>:
  \<open>_simple\<close>, \<open>_complex\<close>, \<open>_originSimple\<close>, \<open>_originComplex\<close>. The constructor assigns
  \<open>_originSimple\<close> on every path (line 50), so it is never \<open>undefined\<close>;
  \<open>_originComplex\<close> is assigned only when complex fields are given (lines 39-42) and is
  \<open>undefined\<close>, here \<open>None\<close>, otherwise. A \<open>BuilderInit\<close> is a function from the field
  name to a builder; it is taken to be pure and total. \<open>name\<close> is a string or \<open>null\<close>
  (\<open>undefined\<close> is replaced by the default \<open>''\<close> of the parameter).
\<close>

datatype SchemaBuilder = SchemaBuilder
  (name: "string option")
  (simple: "string list")
  (complex: "(string \<times> string) list")
  (originSimple: "string list")
  (originComplex: "(string \<times> (string \<Rightarrow> SchemaBuilder)) list option")

type_synonym BuilderInit = "string \<Rightarrow> SchemaBuilder"

datatype error = Error string

definition with_simple :: "string list \<Rightarrow> SchemaBuilder \<Rightarrow> SchemaBuilder" where
  "with_simple s this =
     SchemaBuilder (name this) s (complex this) (originSimple this) (originComplex this)"

definition with_complex :: "(string \<times> string) list \<Rightarrow> SchemaBuilder \<Rightarrow> SchemaBuilder" where
  "with_complex c this =
     SchemaBuilder (name this) (simple this) c (originSimple this) (originComplex this)"

text \<open>\<open>this._originComplex?.has(field)\<close> and \<open>this._originComplex?.get(field)\<close>.\<close>

definition originComplex_has :: "SchemaBuilder \<Rightarrow> string \<Rightarrow> bool" where
  "originComplex_has this field =
     (case originComplex this of None \<Rightarrow> False | Some oc \<Rightarrow> Map_has oc field)"

definition originComplex_get :: "SchemaBuilder \<Rightarrow> string \<Rightarrow> BuilderInit option" where
  "originComplex_get this field =
     (case originComplex this of None \<Rightarrow> None | Some oc \<Rightarrow> Map_get oc field)"

text \<open>String concatenation with a name that may be \<open>null\<close>: \<open>null + ' '\<close> is \<open>"null "\<close>.\<close>

definition nameString :: "string option \<Rightarrow> string" where
  "nameString nm = (case nm of None \<Rightarrow> ''null'' | Some s \<Rightarrow> s)"

text \<open>\<open>build\<close> (lines 198-206).\<close>

definition build :: "bool \<Rightarrow> SchemaBuilder \<Rightarrow> string" where
  "build addEntryName this =
     (let simpleFields = simple this;
          complexFields = map snd (complex this);
          fields = simpleFields @ complexFields;
          fieldsSchema = (if length fields \<noteq> 0
                          then ''{'' @ join '' '' (simpleFields @ complexFields) @ ''}''
                          else '''')
      in (if addEntryName then nameString (name this) @ '' '' else '''') @ fieldsSchema)"

text \<open>\<open>remove\<close> (lines 65-70) and \<open>clear\<close> (lines 73-78).\<close>

definition remove :: "string \<Rightarrow> SchemaBuilder \<Rightarrow> SchemaBuilder" where
  "remove field this =
     with_simple (Set_delete field (simple this))
       (with_complex (Map_delete field (complex this)) this)"

definition clear :: "SchemaBuilder \<Rightarrow> SchemaBuilder" where
  "clear this = with_simple [] (with_complex [] this)"

text \<open>
  \<open>addComplex\<close> (lines 85-96). The argument is absent (\<open>None\<close>) or a builder;
  \<open>complex.name\<close> is truthy when it is neither \<open>null\<close> nor the empty string.
\<close>

definition addComplex :: "SchemaBuilder option \<Rightarrow> SchemaBuilder \<Rightarrow> SchemaBuilder" where
  "addComplex complex' this =
     (case complex' of
        None \<Rightarrow> this
      | Some c \<Rightarrow>
          (case name c of
             None \<Rightarrow> this
           | Some cname \<Rightarrow>
               if cname \<noteq> [] \<and> originComplex_has this cname
               then with_complex (Map_set cname (build True c) (complex this)) this
               else this))"

text \<open>\<open>getComplex\<close> (lines 102-107): the result is \<open>undefined\<close> for an unknown field.\<close>

definition getComplex :: "string \<Rightarrow> SchemaBuilder \<Rightarrow> SchemaBuilder option" where
  "getComplex field this =
     (case originComplex_get this field of
        None \<Rightarrow> None
      | Some builderInit \<Rightarrow> Some (builderInit field))"

text \<open>\<open>useSimpleOnly\<close> (lines 113-132).\<close>

definition useSimpleOnly :: "bool \<Rightarrow> SchemaBuilder \<Rightarrow> SchemaBuilder" where
  "useSimpleOnly complexWithSimple this =
     (let this1 = with_simple (fold Set_add (originSimple this) []) this
      in case originComplex this of
           None \<Rightarrow> this1
         | Some oc \<Rightarrow>
             (let this2 = with_complex [] this1
              in if complexWithSimple
                 then fold (\<lambda>(field, builderInit). addComplex (Some (builderInit field))) oc this2
                 else this2))"

text \<open>
  \<open>add\<close> (lines 139-181). The \<open>reduce\<close> classifies every field against the state the
  call starts in and pushes it on one of three arrays; then the complex group is
  attached through the factories, then the simple group is inserted.
\<close>

datatype FieldType = COMPLEX | SIMPLE | UNDEFINED

definition fieldKey :: "SchemaBuilder \<Rightarrow> string \<Rightarrow> FieldType" where
  "fieldKey this field =
     (if originComplex_has this field
      then (if \<not> Map_has (complex this) field then COMPLEX else UNDEFINED)
      else if field \<in> set (originSimple this) then SIMPLE
      else UNDEFINED)"

definition groupFields :: "SchemaBuilder \<Rightarrow> string list \<Rightarrow> (FieldType \<Rightarrow> string list)" where
  "groupFields this fields =
     foldl (\<lambda>acc field. acc(fieldKey this field := acc (fieldKey this field) @ [field]))
       (\<lambda>_. []) fields"

text \<open>The body of the \<open>forEach\<close> over the complex group (lines 169-176).\<close>

definition attachDefault :: "string \<Rightarrow> SchemaBuilder \<Rightarrow> SchemaBuilder" where
  "attachDefault e this =
     (case originComplex_get this e of
        None \<Rightarrow> this
      | Some builderInit \<Rightarrow> addComplex (Some (builderInit e)) this)"

definition add :: "string list \<Rightarrow> SchemaBuilder \<Rightarrow> SchemaBuilder" where
  "add fields this =
     (let groupedFields = groupFields this fields;
          this1 = fold attachDefault (groupedFields COMPLEX) this
      in with_simple (fold Set_add (groupedFields SIMPLE) (simple this1)) this1)"

text \<open>\<open>set\<close> (lines 188-191).\<close>

definition set_fields :: "string list \<Rightarrow> SchemaBuilder \<Rightarrow> SchemaBuilder" where
  "set_fields fields this = add fields (clear this)"

text \<open>
  The constructor (lines 30-62). \<open>simpleFields\<close> is the array given, or the
  \<open>Object.values\<close> of the object given; \<open>initFields\<close> is \<open>None\<close> when absent. The
  \<open>throw\<close> is the \<open>Inl\<close> result. In the guard, \<open>this._originComplex?.size\<close> is
  \<open>undefined\<close> when \<open>_originComplex\<close> is, and \<open>undefined === 0\<close> is false.
\<close>

definition constructor ::
  "string list \<Rightarrow> string option \<Rightarrow> string list option \<Rightarrow> (string \<times> BuilderInit) list
    \<Rightarrow> error + SchemaBuilder" where
  "constructor simpleFields nm initFields infoAboutComplex =
     (let oc = (if length infoAboutComplex \<noteq> 0 then Some (Map_new infoAboutComplex) else None);
          fields = Set_new simpleFields;
          os = (case oc of
                  None \<Rightarrow> fields
                | Some m \<Rightarrow> fold (\<lambda>(field, _). Set_delete field) m fields);
          this = SchemaBuilder nm [] [] os oc
      in if length os = 0 \<and> (case oc of None \<Rightarrow> False | Some m \<Rightarrow> length m = 0)
         then Inl (Error ''Schema does not include fields'')
         else Inr (case initFields of
                     None \<Rightarrow> useSimpleOnly False this
                   | Some fs \<Rightarrow> if length fs \<noteq> 0 then add fs this
                               else useSimpleOnly False this))"

subsection \<open>\<open>createOperationName\<close> and \<open>createScript\<close> (lines 212-248)\<close>

definition createOperationName :: "caseMapping \<Rightarrow> string \<Rightarrow> string" where
  "createOperationName lib scriptName = camelToSnakeCase lib scriptName True"

datatype ScriptType = Query | Mutation

definition scriptTypeString :: "ScriptType \<Rightarrow> string" where
  "scriptTypeString t = (case t of Query \<Rightarrow> ''query'' | Mutation \<Rightarrow> ''mutation'')"

text \<open>\<open>resultSchema\<close> is a string or a builder when it is not absent.\<close>

datatype ResultSchema = Literal string | Builder SchemaBuilder

text \<open>
  The parts of \<open>createScript\<close>, named after its local constants. \<open>args\<close> are the
  \<open>field: $field\<close> pairs joined with a comma and a space; the declarations of
  \<open>preparedParams\<close> are joined with a line feed, and a type that is absent or empty
  is falsy and replaced by \<open>String!\<close>.
\<close>

definition createScript_args :: "(string \<times> string option) list \<Rightarrow> string" where
  "createScript_args paramsMapping =
     join '', '' (map (\<lambda>(fName, _). fName @ '': $'' @ fName) paramsMapping)"

text \<open>\<open>fType || 'String!'\<close>.\<close>

definition paramType :: "string option \<Rightarrow> string" where
  "paramType fType =
     (case fType of
        None \<Rightarrow> ''String!''
      | Some t \<Rightarrow> if t \<noteq> [] then t else ''String!'')"

definition createScript_preparedParams :: "(string \<times> string option) list \<Rightarrow> string" where
  "createScript_preparedParams paramsMapping =
     join [CHR 0x0A]
       (map (\<lambda>(fName, fType). ''$'' @ fName @ '': '' @ paramType fType) paramsMapping)"

definition createScript_params :: "(string \<times> string option) list \<Rightarrow> string" where
  "createScript_params paramsMapping =
     (let preparedParams = createScript_preparedParams paramsMapping
      in if length preparedParams > 0 then ''('' @ preparedParams @ '')'' else [])"

text \<open>
  The conditional expression of lines 231-235. Its value \<open>null\<close> for an absent result
  schema is an operand of \<open>+\<close> with a string, where it becomes the text \<open>null\<close>.
\<close>

definition resultSchemaString :: "ResultSchema option \<Rightarrow> string" where
  "resultSchemaString resultSchema =
     (case resultSchema of
        None \<Rightarrow> ''null''
      | Some (Literal s) \<Rightarrow> s
      | Some (Builder b) \<Rightarrow> build False b)"

text \<open>
  \<open>schema\<close>: \<open>+\<close> binds tighter than \<open>||\<close>, so the argument parenthetical and the result
  schema are concatenated first and only an empty concatenation is replaced by \<open>''\<close>.
\<close>

definition createScript_schema ::
  "ResultSchema option \<Rightarrow> (string \<times> string option) list \<Rightarrow> string" where
  "createScript_schema resultSchema paramsMapping =
     (let args = createScript_args paramsMapping;
          concatenated =
            (if length args \<noteq> 0 then ''('' @ args @ '')'' else []) @
            resultSchemaString resultSchema
      in if concatenated \<noteq> [] then concatenated else [])"

definition createScript ::
  "caseMapping \<Rightarrow> ScriptType \<Rightarrow> string \<Rightarrow> ResultSchema option
    \<Rightarrow> (string \<times> string option) list \<Rightarrow> string" where
  "createScript lib scriptType nm resultSchema paramsMapping =
     (let schema = createScript_schema resultSchema paramsMapping;
          operationName = scriptTypeString scriptType @ '' '' @ createOperationName lib nm;
          params = createScript_params paramsMapping
      in operationName @ '' '' @ params @ '' { '' @ nm @ '' '' @ schema @ '' }'')"

subsection \<open>The builders of \<open>examples/index.ts\<close>\<close>

text \<open>
  Each example class passes the values of its enum, the entry name (\<open>undefined\<close> becomes
  \<open>''\<close>) and its rest parameter \<open>initFields\<close>, an array, to the constructor. A factory
  \<open>(e) => new C(e)\<close> returns the constructed builder: \<open>projr\<close> takes it out of the
  result of the constructor, which is an \<open>Inr\<close> for these registries.
\<close>

definition PublisherSchemaBuilder :: "string option \<Rightarrow> string list \<Rightarrow> error + SchemaBuilder" where
  "PublisherSchemaBuilder entryName initFields =
     constructor [''name'', ''address''] entryName (Some initFields) []"

definition PublisherInit :: BuilderInit where
  "PublisherInit e = projr (PublisherSchemaBuilder (Some e) [])"

definition BookSchemaBuilder :: "string option \<Rightarrow> string list \<Rightarrow> error + SchemaBuilder" where
  "BookSchemaBuilder entryName initFields =
     constructor [''title'', ''publisher''] entryName (Some initFields)
       [(''publisher'', PublisherInit)]"

definition BookInit :: BuilderInit where
  "BookInit e = projr (BookSchemaBuilder (Some e) [])"

definition AuthorSchemaBuilder :: "string option \<Rightarrow> string list \<Rightarrow> error + SchemaBuilder" where
  "AuthorSchemaBuilder entryName initFields =
     constructor [''id'', ''name'', ''books''] entryName (Some initFields)
       [(''books'', BookInit)]"

text \<open>
  A factory written without its parameter, \<open>() => new PublisherSchemaBuilder()\<close>, which
  the type \<open>BuilderInit\<close> admits: the builder it returns has the default name \<open>''\<close>.
\<close>

definition PublisherInit_unnamed :: BuilderInit where
  "PublisherInit_unnamed e = projr (PublisherSchemaBuilder (Some []) [])"

subsection \<open>Sequences of calls on one builder\<close>

text \<open>
  The public operations of a builder. The argument of \<open>addComplex\<close> is a value of
  type \<open>'a\<close>: a builder when the call is applied to one builder, a reference when it is
  applied in a store. \<open>getComplex\<close> and \<open>build\<close> only read the fields of \<open>this\<close>,
  so the builder they are called on is the same afterwards.
\<close>

datatype 'a operation =
    Add "string list"
  | Remove string
  | SetFields "string list"
  | Clear
  | AddComplex "'a option"
  | GetComplex string
  | UseSimpleOnly bool
  | Build bool

fun exec :: "SchemaBuilder operation \<Rightarrow> SchemaBuilder \<Rightarrow> SchemaBuilder" where
  "exec (Add fields) this = add fields this"
| "exec (Remove field) this = remove field this"
| "exec (SetFields fields) this = set_fields fields this"
| "exec Clear this = clear this"
| "exec (AddComplex c) this = addComplex c this"
| "exec (GetComplex field) this = this"
| "exec (UseSimpleOnly b) this = useSimpleOnly b this"
| "exec (Build b) this = this"

definition run :: "SchemaBuilder operation list \<Rightarrow> SchemaBuilder \<Rightarrow> SchemaBuilder" where
  "run ops this = fold exec ops this"

subsection \<open>Builders as objects in a store\<close>

text \<open>
  Builders are objects: a variable holds a reference, and a method call changes the
  object the reference points to. The store maps references to objects. A builder
  shares no mutable part with another one: the constructor and \<open>clear\<close> make fresh
  sets and maps, and the values of \<open>_complex\<close> are strings. A call
  \<open>r.m(...)\<close> reads the argument objects in the store and replaces the object at \<open>r\<close>.
\<close>

type_synonym ref = nat

type_synonym store = "ref \<Rightarrow> SchemaBuilder"

definition call :: "ref \<Rightarrow> ref operation \<Rightarrow> store \<Rightarrow> store" where
  "call r oper h = h(r := exec (map_operation h oper) (h r))"

definition calls :: "(ref \<times> ref operation) list \<Rightarrow> store \<Rightarrow> store" where
  "calls cs h = fold (\<lambda>(r, oper). call r oper) cs h"

text \<open>The keys of \<open>_originComplex\<close>, none when it is \<open>undefined\<close>.\<close>

definition originComplex_keys :: "SchemaBuilder \<Rightarrow> string set" where
  "originComplex_keys this =
     (case originComplex this of None \<Rightarrow> {} | Some oc \<Rightarrow> fst ` set oc)"

text \<open>The selection lies within the registry.\<close>

definition selection_within_origin :: "SchemaBuilder \<Rightarrow> bool" where
  "selection_within_origin this \<longleftrightarrow>
     set (simple this) \<subseteq> set (originSimple this) \<and>
     fst ` set (complex this) \<subseteq> originComplex_keys this"

text \<open>The brace block of \<open>build\<close> for a list of tokens, absent when there is none.\<close>

definition fieldsBlock :: "string list \<Rightarrow> string" where
  "fieldsBlock tokens = (if tokens = [] then [] else ''{'' @ join '' '' tokens @ ''}'')"

text \<open>The builder of line 54 of \<open>examples/index.ts\<close>, \<open>new AuthorSchemaBuilder('author')\<close>.\<close>

definition authorDefault :: SchemaBuilder where
  "authorDefault = projr (AuthorSchemaBuilder (Some ''author'') [])"

text \<open>
  The objects of lines 68-72 of \<open>examples/index.ts\<close>: at reference 0 the builder
  \<open>new AuthorSchemaBuilder('author').clear()\<close>, at reference 1 the builder that
  \<open>getComplex\<close> returns for \<open>books\<close>; every other reference holds the author builder of
  line 54.
\<close>

definition exampleStore :: store where
  "exampleStore =
     (\<lambda>r. if r = 0 then clear authorDefault
          else if r = 1 then BookInit ''books''
          else authorDefault)"

text \<open>
  A book registry whose factory for \<open>publisher\<close> is the one written without its
  parameter.
\<close>

definition bookWithUnnamedPublisher :: SchemaBuilder where
  "bookWithUnnamedPublisher =
     projr (constructor [''title'', ''publisher''] (Some ''book'') (Some [])
              [(''publisher'', PublisherInit_unnamed)])"

text \<open>
  The shape of the string \<open>addComplex\<close> stores under a key: the key, a space, and then
  nothing or a block in braces.
\<close>

definition childString :: "string \<Rightarrow> string \<Rightarrow> bool" where
  "childString k v \<longleftrightarrow>
     take (length k + 1) v = k @ '' '' \<and>
     (let block = drop (length k + 1) v
      in block = [] \<or> (2 \<le> length block \<and> hd block = CHR ''{'' \<and> last block = CHR ''}''))"

definition complex_entries_named :: "SchemaBuilder \<Rightarrow> bool" where
  "complex_entries_named this \<longleftrightarrow> list_all (\<lambda>(k, v). childString k v) (complex this)"


section \<open>Facts about sets, maps and join\<close>

lemma Set_add_set [simp]: "set (Set_add x xs) = insert x (set xs)"
  by (auto simp: Set_add_def)

lemma Set_add_distinct [simp]: "distinct xs \<Longrightarrow> distinct (Set_add x xs)"
  by (simp add: Set_add_def)

lemma fold_Set_add_set [simp]: "set (fold Set_add ys xs) = set ys \<union> set xs"
  by (induction ys arbitrary: xs) auto

lemma fold_Set_add_distinct [simp]: "distinct xs \<Longrightarrow> distinct (fold Set_add ys xs)"
  by (induction ys arbitrary: xs) auto

lemma Set_add_prefix: "prefix xs (Set_add x xs)"
  by (simp add: Set_add_def)

lemma fold_Set_add_prefix: "prefix xs (fold Set_add ys xs)"
proof (induction ys arbitrary: xs)
  case Nil
  show ?case by simp
next
  case (Cons y ys)
  have "prefix xs (Set_add y xs)" by (rule Set_add_prefix)
  also have "prefix (Set_add y xs) (fold Set_add ys (Set_add y xs))" by (rule Cons.IH)
  finally show ?case by simp
qed

lemma fold_Set_add_fresh: "distinct ys \<Longrightarrow> set ys \<inter> set xs = {} \<Longrightarrow> fold Set_add ys xs = xs @ ys"
  by (induction ys arbitrary: xs) (auto simp: Set_add_def)

lemma Set_new_set [simp]: "set (Set_new xs) = set xs"
  by (simp add: Set_new_def)

lemma Set_new_distinct [simp]: "distinct (Set_new xs)"
  by (simp add: Set_new_def)

lemma Set_delete_set [simp]: "set (Set_delete x xs) = set xs - {x}"
  by (simp add: Set_delete_def)

lemma Set_delete_distinct [simp]: "distinct xs \<Longrightarrow> distinct (Set_delete x xs)"
  by (simp add: Set_delete_def distinct_removeAll)

lemma Set_delete_absent: "x \<notin> set xs \<Longrightarrow> Set_delete x xs = xs"
  by (simp add: Set_delete_def)

lemma fold_Set_delete_set:
  "set (fold (\<lambda>(field, _). Set_delete field) m xs) = set xs - fst ` set m"
  by (induction m arbitrary: xs) (auto split: prod.splits)

lemma fold_Set_delete_distinct:
  "distinct xs \<Longrightarrow> distinct (fold (\<lambda>(field, _). Set_delete field) m xs)"
  by (induction m arbitrary: xs) (auto split: prod.splits)

lemma Map_set_keys: "fst ` set (Map_set k v m) = insert k (fst ` set m)"
  by (simp add: Map_set_def dom_update)

lemma Map_set_distinct: "distinct (map fst m) \<Longrightarrow> distinct (map fst (Map_set k v m))"
  by (simp add: Map_set_def distinct_update)

lemma Map_set_fresh: "k \<notin> fst ` set m \<Longrightarrow> Map_set k v m = m @ [(k, v)]"
  unfolding Map_set_def by (induction m) auto

lemma Map_set_keys_prefix: "prefix (map fst m) (map fst (Map_set k v m))"
  unfolding Map_set_def by (induction m) auto

lemma Map_set_get: "Map_get (Map_set k v m) k' = (if k' = k then Some v else Map_get m k')"
  by (simp add: Map_set_def Map_get_def update_conv')

lemma Map_delete_keys: "fst ` set (Map_delete k m) \<subseteq> fst ` set m"
  by (simp add: Map_delete_def dom_delete_subset)

lemma Map_delete_absent: "\<not> Map_has m k \<Longrightarrow> Map_delete k m = m"
  by (simp add: Map_delete_def Map_has_def)

lemma Map_new_keys: "fst ` set (fold (\<lambda>(k, v). Map_set k v) es m) = fst ` set es \<union> fst ` set m"
  by (induction es arbitrary: m) (auto simp: Map_set_keys split: prod.splits)

lemma Map_new_distinct_aux:
  "distinct (map fst m) \<Longrightarrow> distinct (map fst (fold (\<lambda>(k, v). Map_set k v) es m))"
  by (induction es arbitrary: m) (auto simp: Map_set_distinct split: prod.splits)

lemma Map_new_distinct: "distinct (map fst (Map_new es))"
  by (simp add: Map_new_def Map_new_distinct_aux)

lemma Map_new_nonempty: "es \<noteq> [] \<Longrightarrow> Map_new es \<noteq> []"
proof -
  assume "es \<noteq> []"
  then have "fst ` set (Map_new es) \<noteq> {}" by (simp add: Map_new_def Map_new_keys)
  then show ?thesis by auto
qed

lemma join_append:
  "xs \<noteq> [] \<Longrightarrow> ys \<noteq> [] \<Longrightarrow> join sep (xs @ ys) = join sep xs @ sep @ join sep ys"
proof (induction sep xs rule: join.induct)
  case (1 sep)
  then show ?case by simp
next
  case (2 sep x)
  then show ?case by (cases ys) simp_all
next
  case (3 sep x y zs)
  then show ?case by simp
qed

section \<open>Facts about the operations\<close>

lemma with_simple_sel [simp]:
  "name (with_simple s t) = name t"
  "simple (with_simple s t) = s"
  "complex (with_simple s t) = complex t"
  "originSimple (with_simple s t) = originSimple t"
  "originComplex (with_simple s t) = originComplex t"
  by (simp_all add: with_simple_def)

lemma with_complex_sel [simp]:
  "name (with_complex c t) = name t"
  "simple (with_complex c t) = simple t"
  "complex (with_complex c t) = c"
  "originSimple (with_complex c t) = originSimple t"
  "originComplex (with_complex c t) = originComplex t"
  by (simp_all add: with_complex_def)

lemma with_same [simp]:
  "with_simple (simple t) t = t"
  "with_complex (complex t) t = t"
  by (cases t; simp add: with_simple_def with_complex_def)+

lemma originComplex_has_keys: "originComplex_has t f \<longleftrightarrow> f \<in> originComplex_keys t"
  by (simp add: originComplex_has_def originComplex_keys_def Map_has_def split: option.splits)

lemma originComplex_has_cong:
  "originComplex t' = originComplex t \<Longrightarrow> originComplex_has t' = originComplex_has t"
  by (auto simp: originComplex_has_def fun_eq_iff)

lemma originComplex_keys_cong:
  "originComplex t' = originComplex t \<Longrightarrow> originComplex_keys t' = originComplex_keys t"
  by (simp add: originComplex_keys_def)


lemma addComplex_frame [simp]:
  "name (addComplex c t) = name t"
  "simple (addComplex c t) = simple t"
  "originSimple (addComplex c t) = originSimple t"
  "originComplex (addComplex c t) = originComplex t"
  by (simp_all add: addComplex_def split: option.splits)

lemma addComplex_keys:
  "fst ` set (complex (addComplex c t)) \<subseteq> fst ` set (complex t) \<union> originComplex_keys t"
  by (auto simp: addComplex_def Map_set_keys originComplex_has_keys split: option.splits)

lemma addComplex_prefix: "prefix (map fst (complex t)) (map fst (complex (addComplex c t)))"
  by (simp add: addComplex_def Map_set_keys_prefix split: option.splits)

lemma attachDefault_frame [simp]:
  "name (attachDefault e t) = name t"
  "simple (attachDefault e t) = simple t"
  "originSimple (attachDefault e t) = originSimple t"
  "originComplex (attachDefault e t) = originComplex t"
  by (simp_all add: attachDefault_def split: option.splits)

lemma attachDefault_keys:
  "fst ` set (complex (attachDefault e t)) \<subseteq> fst ` set (complex t) \<union> originComplex_keys t"
  using addComplex_keys by (auto simp: attachDefault_def split: option.splits)

lemma attachDefault_prefix: "prefix (map fst (complex t)) (map fst (complex (attachDefault e t)))"
  by (simp add: attachDefault_def addComplex_prefix split: option.splits)

lemma fold_attachDefault_frame [simp]:
  "name (fold attachDefault es t) = name t"
  "simple (fold attachDefault es t) = simple t"
  "originSimple (fold attachDefault es t) = originSimple t"
  "originComplex (fold attachDefault es t) = originComplex t"
  by (induction es arbitrary: t; simp)+

lemma fold_attachDefault_keys:
  "fst ` set (complex (fold attachDefault es t)) \<subseteq> fst ` set (complex t) \<union> originComplex_keys t"
proof (induction es arbitrary: t)
  case Nil
  show ?case by simp
next
  case (Cons e es)
  have "originComplex_keys (attachDefault e t) = originComplex_keys t"
    by (rule originComplex_keys_cong) simp
  with Cons.IH [of "attachDefault e t"] attachDefault_keys [of e t] show ?case by auto
qed

lemma fold_attachDefault_prefix:
  "prefix (map fst (complex t)) (map fst (complex (fold attachDefault es t)))"
proof (induction es arbitrary: t)
  case Nil
  show ?case by simp
next
  case (Cons e es)
  have "prefix (map fst (complex t)) (map fst (complex (attachDefault e t)))"
    by (rule attachDefault_prefix)
  also have "prefix \<dots> (map fst (complex (fold attachDefault es (attachDefault e t))))"
    by (rule Cons.IH)
  finally show ?case by simp
qed

lemma groupFields_acc:
  "foldl (\<lambda>acc field. acc(fieldKey t field := acc (fieldKey t field) @ [field])) acc fs k =
     acc k @ filter (\<lambda>f. fieldKey t f = k) fs"
  by (induction fs arbitrary: acc) auto

lemma groupFields_filter: "groupFields t fs k = filter (\<lambda>f. fieldKey t f = k) fs"
  by (simp add: groupFields_def groupFields_acc)

lemma add_frame [simp]:
  "name (add fs t) = name t"
  "originSimple (add fs t) = originSimple t"
  "originComplex (add fs t) = originComplex t"
  by (simp_all add: add_def Let_def)

lemma add_simple:
  "simple (add fs t) = fold Set_add (filter (\<lambda>f. fieldKey t f = SIMPLE) fs) (simple t)"
  by (simp add: add_def Let_def groupFields_filter)

lemma add_complex:
  "complex (add fs t) = complex (fold attachDefault (filter (\<lambda>f. fieldKey t f = COMPLEX) fs) t)"
  by (simp add: add_def Let_def groupFields_filter)

lemma fieldKey_SIMPLE: "fieldKey t f = SIMPLE \<Longrightarrow> f \<in> set (originSimple t)"
  by (simp add: fieldKey_def split: if_splits)

lemma add_simple_subset: "set (simple (add fs t)) \<subseteq> set (simple t) \<union> set (originSimple t)"
  by (auto simp: add_simple dest: fieldKey_SIMPLE)

lemma add_complex_keys:
  "fst ` set (complex (add fs t)) \<subseteq> fst ` set (complex t) \<union> originComplex_keys t"
  unfolding add_complex by (rule fold_attachDefault_keys)

lemma clear_sel [simp]:
  "name (clear t) = name t"
  "simple (clear t) = []"
  "complex (clear t) = []"
  "originSimple (clear t) = originSimple t"
  "originComplex (clear t) = originComplex t"
  by (simp_all add: clear_def)

lemma remove_sel [simp]:
  "name (remove f t) = name t"
  "simple (remove f t) = Set_delete f (simple t)"
  "complex (remove f t) = Map_delete f (complex t)"
  "originSimple (remove f t) = originSimple t"
  "originComplex (remove f t) = originComplex t"
  by (simp_all add: remove_def)

lemma set_fields_frame [simp]:
  "name (set_fields fs t) = name t"
  "originSimple (set_fields fs t) = originSimple t"
  "originComplex (set_fields fs t) = originComplex t"
  by (simp_all add: set_fields_def)

lemma fold_attachAll_frame [simp]:
  "name (fold (\<lambda>(field, builderInit). addComplex (Some (builderInit field))) oc t) = name t"
  "simple (fold (\<lambda>(field, builderInit). addComplex (Some (builderInit field))) oc t) = simple t"
  "originSimple (fold (\<lambda>(field, builderInit). addComplex (Some (builderInit field))) oc t) = originSimple t"
  "originComplex (fold (\<lambda>(field, builderInit). addComplex (Some (builderInit field))) oc t) = originComplex t"
  by (induction oc arbitrary: t; simp split: prod.splits)+

lemma fold_attachAll_keys:
  "fst ` set (complex (fold (\<lambda>(field, builderInit). addComplex (Some (builderInit field))) oc t))
     \<subseteq> fst ` set (complex t) \<union> originComplex_keys t"
proof (induction oc arbitrary: t)
  case Nil
  show ?case by simp
next
  case (Cons e oc)
  obtain field builderInit where e: "e = (field, builderInit)" by (cases e)
  let ?t = "addComplex (Some (builderInit field)) t"
  have "originComplex_keys ?t = originComplex_keys t"
    by (rule originComplex_keys_cong) simp
  with Cons.IH [of ?t] addComplex_keys [of "Some (builderInit field)" t] show ?case
    by (auto simp: e)
qed

lemma useSimpleOnly_frame [simp]:
  "name (useSimpleOnly b t) = name t"
  "originSimple (useSimpleOnly b t) = originSimple t"
  "originComplex (useSimpleOnly b t) = originComplex t"
  by (simp_all add: useSimpleOnly_def Let_def split: option.splits)

lemma useSimpleOnly_simple: "simple (useSimpleOnly b t) = fold Set_add (originSimple t) []"
  by (simp add: useSimpleOnly_def Let_def split: option.splits)

lemma useSimpleOnly_False_complex:
  "complex (useSimpleOnly False t) = (case originComplex t of None \<Rightarrow> complex t | Some oc \<Rightarrow> [])"
  by (simp add: useSimpleOnly_def Let_def split: option.splits)

lemma useSimpleOnly_True_complex:
  "originComplex t = Some oc \<Longrightarrow>
   complex (useSimpleOnly True t) =
     complex (fold (\<lambda>(field, builderInit). addComplex (Some (builderInit field))) oc
                (with_complex [] (with_simple (fold Set_add (originSimple t) []) t)))"
  by (simp add: useSimpleOnly_def Let_def)

lemma useSimpleOnly_None_complex:
  "originComplex t = None \<Longrightarrow> complex (useSimpleOnly b t) = complex t"
  by (simp add: useSimpleOnly_def Let_def)

lemma useSimpleOnly_complex_keys:
  "fst ` set (complex (useSimpleOnly b t)) \<subseteq> fst ` set (complex t) \<union> originComplex_keys t"
proof (cases "originComplex t")
  case None
  then show ?thesis by (simp add: useSimpleOnly_None_complex)
next
  case (Some oc)
  show ?thesis
  proof (cases b)
    case False
    then show ?thesis using Some by (simp add: useSimpleOnly_False_complex)
  next
    case True
    let ?t = "with_complex [] (with_simple (fold Set_add (originSimple t) []) t)"
    have k: "originComplex_keys ?t = originComplex_keys t"
      by (rule originComplex_keys_cong) simp
    have c: "complex ?t = []" by simp
    have "fst ` set (complex (useSimpleOnly True t)) \<subseteq> fst ` set (complex ?t) \<union> originComplex_keys ?t"
      unfolding useSimpleOnly_True_complex [OF Some] by (rule fold_attachAll_keys)
    then show ?thesis unfolding k c using True by auto
  qed
qed

lemma exec_frame [simp]:
  "name (exec oper t) = name t"
  "originSimple (exec oper t) = originSimple t"
  "originComplex (exec oper t) = originComplex t"
  by (cases oper; simp)+

lemma run_frame [simp]:
  "name (run ops t) = name t"
  "originSimple (run ops t) = originSimple t"
  "originComplex (run ops t) = originComplex t"
  unfolding run_def by (induction ops arbitrary: t; simp)+

section \<open>Invariant\<close>

lemma selection_within_origin_exec:
  assumes "selection_within_origin t"
  shows "selection_within_origin (exec oper t)"
proof -
  from assms have s: "set (simple t) \<subseteq> set (originSimple t)"
    and c: "fst ` set (complex t) \<subseteq> originComplex_keys t"
    by (simp_all add: selection_within_origin_def)
  have k: "originComplex_keys (exec oper t) = originComplex_keys t"
    by (rule originComplex_keys_cong) simp
  have "set (simple (exec oper t)) \<subseteq> set (originSimple t)"
  proof (cases oper)
    case (Add fs)
    then show ?thesis using add_simple_subset [of fs t] s by auto
  next
    case (SetFields fs)
    then show ?thesis using add_simple_subset [of fs "clear t"] by (auto simp: set_fields_def)
  next
    case (UseSimpleOnly b)
    then show ?thesis by (simp add: useSimpleOnly_simple)
  qed (use s in auto)
  moreover have "fst ` set (complex (exec oper t)) \<subseteq> originComplex_keys t"
  proof (cases oper)
    case (Add fs)
    then show ?thesis using add_complex_keys [of fs t] c by auto
  next
    case (SetFields fs)
    have "originComplex_keys (clear t) = originComplex_keys t"
      by (rule originComplex_keys_cong) simp
    then show ?thesis using add_complex_keys [of fs "clear t"] SetFields
      by (auto simp: set_fields_def)
  next
    case (Remove f)
    then show ?thesis using Map_delete_keys [of f "complex t"] c by auto
  next
    case (AddComplex a)
    then show ?thesis using addComplex_keys [of a t] c by auto
  next
    case (UseSimpleOnly b)
    then show ?thesis using useSimpleOnly_complex_keys [of b t] c by auto
  qed (use c in auto)
  ultimately show ?thesis by (simp add: selection_within_origin_def k)
qed

lemma selection_within_origin_run:
  "selection_within_origin t \<Longrightarrow> selection_within_origin (run ops t)"
  unfolding run_def by (induction ops arbitrary: t) (simp_all add: selection_within_origin_exec)

lemma constructor_eq:
  "constructor sf nm init info =
     Inr (case init of
            None \<Rightarrow> useSimpleOnly False
              (SchemaBuilder nm [] []
                (if info = [] then Set_new sf
                 else fold (\<lambda>(field, _). Set_delete field) (Map_new info) (Set_new sf))
                (if info = [] then None else Some (Map_new info)))
          | Some fs \<Rightarrow>
              if fs = [] then useSimpleOnly False
                (SchemaBuilder nm [] []
                  (if info = [] then Set_new sf
                   else fold (\<lambda>(field, _). Set_delete field) (Map_new info) (Set_new sf))
                  (if info = [] then None else Some (Map_new info)))
              else add fs
                (SchemaBuilder nm [] []
                  (if info = [] then Set_new sf
                   else fold (\<lambda>(field, _). Set_delete field) (Map_new info) (Set_new sf))
                  (if info = [] then None else Some (Map_new info))))"
proof (cases "info = []")
  case True
  then show ?thesis by (simp add: constructor_def Let_def split: option.splits)
next
  case False
  then have "Map_new info \<noteq> []" by (rule Map_new_nonempty)
  with False show ?thesis by (simp add: constructor_def Let_def split: option.splits)
qed

lemma constructor_cases:
  assumes "constructor sf nm init info = Inr n0"
  obtains t where "name t = nm" "simple t = []" "complex t = []"
    "originSimple t = (if info = [] then Set_new sf
                       else fold (\<lambda>(field, _). Set_delete field) (Map_new info) (Set_new sf))"
    "originComplex t = (if info = [] then None else Some (Map_new info))"
    "n0 = (case init of None \<Rightarrow> useSimpleOnly False t
           | Some fs \<Rightarrow> if fs = [] then useSimpleOnly False t else add fs t)"
proof -
  let ?t = "SchemaBuilder nm [] []
              (if info = [] then Set_new sf
               else fold (\<lambda>(field, _). Set_delete field) (Map_new info) (Set_new sf))
              (if info = [] then None else Some (Map_new info))"
  have "n0 = (case init of None \<Rightarrow> useSimpleOnly False ?t
           | Some fs \<Rightarrow> if fs = [] then useSimpleOnly False ?t else add fs ?t)"
    using assms unfolding constructor_eq by simp
  then show thesis by (intro that [of ?t]) simp_all
qed

lemma constructor_frame:
  assumes "constructor sf nm init info = Inr n0"
  shows "name n0 = nm"
    and "originSimple n0 = (if info = [] then Set_new sf
                       else fold (\<lambda>(field, _). Set_delete field) (Map_new info) (Set_new sf))"
    and "originComplex n0 = (if info = [] then None else Some (Map_new info))"
proof -
  from assms obtain t where t: "name t = nm"
    "originSimple t = (if info = [] then Set_new sf
                       else fold (\<lambda>(field, _). Set_delete field) (Map_new info) (Set_new sf))"
    "originComplex t = (if info = [] then None else Some (Map_new info))"
    and n0: "n0 = (case init of None \<Rightarrow> useSimpleOnly False t
           | Some fs \<Rightarrow> if fs = [] then useSimpleOnly False t else add fs t)"
    by (rule constructor_cases)
  have "name n0 = name t" "originSimple n0 = originSimple t" "originComplex n0 = originComplex t"
    by (simp_all add: n0 split: option.splits)
  then show "name n0 = nm"
    and "originSimple n0 = (if info = [] then Set_new sf
                       else fold (\<lambda>(field, _). Set_delete field) (Map_new info) (Set_new sf))"
    and "originComplex n0 = (if info = [] then None else Some (Map_new info))"
    by (simp_all only: t)
qed

lemma constructor_selection:
  assumes "constructor sf nm init info = Inr n0"
  shows "selection_within_origin n0"
proof -
  from assms obtain t where t: "simple t = []" "complex t = []"
    and n0: "n0 = (case init of None \<Rightarrow> useSimpleOnly False t
           | Some fs \<Rightarrow> if fs = [] then useSimpleOnly False t else add fs t)"
    by (rule constructor_cases)
  have "selection_within_origin t" by (simp add: selection_within_origin_def t)
  then have "selection_within_origin (exec (UseSimpleOnly False) t)"
    and "\<And>fs. selection_within_origin (exec (Add fs) t)"
    by (rule selection_within_origin_exec)+
  then show ?thesis by (simp add: n0 split: option.splits)
qed

lemma constructor_origin_set:
  assumes "constructor sf nm init info = Inr n0"
  shows "set (originSimple n0) = set sf - fst ` set info" and "distinct (originSimple n0)"
    and "originComplex_keys n0 = fst ` set info"
  using constructor_frame [OF assms]
  by (simp_all add: fold_Set_delete_set fold_Set_delete_distinct Map_new_def Map_new_keys
      originComplex_keys_def)

text \<open>The constructor returns a builder for every input: its \<open>throw\<close> is not reached.\<close>

lemma constructor_succeeds: "\<exists>n0. constructor sf nm init info = Inr n0"
  unfolding constructor_eq by blast

section \<open>Evaluation on the example builders\<close>

lemmas container_defs =
  Set_new_def Set_add_def Set_delete_def Map_new_def Map_set_def Map_has_def Map_get_def
  Map_delete_def

lemmas builder_defs =
  constructor_def useSimpleOnly_def add_def attachDefault_def addComplex_def
  getComplex_def clear_def remove_def set_fields_def build_def groupFields_def fieldKey_def
  originComplex_has_def originComplex_get_def originComplex_keys_def nameString_def
  with_simple_def with_complex_def Let_def

lemmas script_defs =
  createScript_def createScript_schema_def createScript_params_def
  createScript_preparedParams_def createScript_args_def paramType_def resultSchemaString_def
  scriptTypeString_def createOperationName_def camelToSnakeCase_def toUpperCase_def
  toUpperChar_def isUpperAZ_def isAscii_def upperAZ_def lowerAZ_def Let_def

lemma PublisherInit_eq:
  "PublisherInit e = SchemaBuilder (Some e) [''name'', ''address''] [] [''name'', ''address''] None"
  by (simp add: PublisherInit_def PublisherSchemaBuilder_def builder_defs container_defs)

lemma PublisherInit_unnamed_eq:
  "PublisherInit_unnamed e =
     SchemaBuilder (Some []) [''name'', ''address''] [] [''name'', ''address''] None"
  by (simp add: PublisherInit_unnamed_def PublisherSchemaBuilder_def builder_defs container_defs)

lemma BookInit_eq:
  "BookInit e =
     SchemaBuilder (Some e) [''title''] [] [''title''] (Some [(''publisher'', PublisherInit)])"
  by (simp add: BookInit_def BookSchemaBuilder_def builder_defs container_defs)

lemma AuthorSchemaBuilder_author:
  "AuthorSchemaBuilder (Some ''author'') [] = Inr authorDefault"
  unfolding authorDefault_def AuthorSchemaBuilder_def constructor_eq by simp

lemma authorDefault_eq:
  "authorDefault =
     SchemaBuilder (Some ''author'') [''id'', ''name''] [] [''id'', ''name'']
       (Some [(''books'', BookInit)])"
  by (simp add: authorDefault_def AuthorSchemaBuilder_def builder_defs container_defs)

section \<open>The operation assembler\<close>

lemma join_Cons_nonempty: "x \<noteq> [] \<Longrightarrow> join sep (x # xs) \<noteq> []"
  by (cases xs) simp_all

lemma createScript_args_empty: "createScript_args pm = [] \<longleftrightarrow> pm = []"
proof (cases pm)
  case Nil
  then show ?thesis by (simp add: createScript_args_def)
next
  case (Cons a pm')
  obtain v ty where "a = (v, ty)" by (cases a)
  with Cons show ?thesis by (simp add: createScript_args_def join_Cons_nonempty)
qed

lemma createScript_preparedParams_empty: "createScript_preparedParams pm = [] \<longleftrightarrow> pm = []"
proof (cases pm)
  case Nil
  then show ?thesis by (simp add: createScript_preparedParams_def)
next
  case (Cons a pm')
  obtain v ty where "a = (v, ty)" by (cases a)
  with Cons show ?thesis by (simp add: createScript_preparedParams_def join_Cons_nonempty)
qed

lemma createScript_params_eq:
  "createScript_params pm =
     (if pm = [] then [] else ''('' @ createScript_preparedParams pm @ '')'')"
  by (simp add: createScript_params_def Let_def createScript_preparedParams_empty)

lemma createScript_schema_eq:
  "createScript_schema rs pm =
     (if pm = [] then resultSchemaString rs
      else ''('' @ createScript_args pm @ '')'' @ resultSchemaString rs)"
  by (simp add: createScript_schema_def Let_def createScript_args_empty)

text \<open>The operation names of the examples do not depend on the library parameter.\<close>

lemma createOperationName_getAuthor: "createOperationName lib ''getAuthor'' = ''GET_AUTHOR''"
  by (simp add: script_defs)

lemma createOperationName_getX: "createOperationName lib ''getX'' = ''GET_X''"
  by (simp add: script_defs)

lemma createOperationName_addBook: "createOperationName lib ''addBook'' = ''ADD_BOOK''"
  by (simp add: script_defs)

text \<open>
  C1. A constructor call whose registry has no simple and no complex field should fail
  with the error "Schema does not include fields". It does not: with no complex field
  given, \<open>_originComplex\<close> stays \<open>undefined\<close>, the guard compares \<open>undefined\<close> with
  \<open>0\<close>, and the constructor returns a builder with an empty registry.
\<close>

theorem constructor_empty_registry_returns:
  "constructor [] (Some ''empty'') None [] = Inr (SchemaBuilder (Some ''empty'') [] [] [] None)"
  by (simp add: builder_defs container_defs)

text \<open>
  C10. With an absent result schema, the document of \<open>createScript\<close> has the text
  \<open>null\<close> where the result selection stands, after the argument parenthetical if
  there is one; \<open>createScript("query", "getX")\<close> is \<open>query GET_X  { getX null }\<close>.
\<close>

theorem createScript_absent_resultSchema:
  "createScript lib scriptType nm None paramsMapping =
     scriptTypeString scriptType @ '' '' @ createOperationName lib nm @ '' '' @
     createScript_params paramsMapping @ '' { '' @ nm @ '' '' @
     (if paramsMapping = [] then [] else ''('' @ createScript_args paramsMapping @ '')'') @
     ''null }'' \<and>
   createScript lib Query ''getX'' None [] = ''query GET_X  { getX null }''"
proof
  show "createScript lib scriptType nm None paramsMapping =
     scriptTypeString scriptType @ '' '' @ createOperationName lib nm @ '' '' @
     createScript_params paramsMapping @ '' { '' @ nm @ '' '' @
     (if paramsMapping = [] then [] else ''('' @ createScript_args paramsMapping @ '')'') @
     ''null }''"
    by (simp add: createScript_def Let_def createScript_schema_eq resultSchemaString_def)
  show "createScript lib Query ''getX'' None [] = ''query GET_X  { getX null }''"
    by (simp add: script_defs)
qed

theorem createScript_absent_resultSchema_witness:
  "\<forall>lib. createScript lib Mutation ''addBook'' None [(''title'', None)] =
     ''mutation ADD_BOOK ($title: String!) { addBook (title: $title)null }''"
proof
  fix lib
  show "createScript lib Mutation ''addBook'' None [(''title'', None)] =
     ''mutation ADD_BOOK ($title: String!) { addBook (title: $title)null }''"
    using createScript_absent_resultSchema [of lib Mutation "''addBook''" "[(''title'', None)]"]
    by (simp add: createOperationName_addBook createScript_params_def
        createScript_preparedParams_def createScript_args_def paramType_def
        scriptTypeString_def)
qed

text \<open>
  C3, in the form that holds of the code. For a non-empty \<open>paramsMapping\<close>, the document
  has the declaration parenthetical \<open>($var1: Type1\<newline>$var2: Type2)\<close>, the declarations
  separated by a line feed, and the argument parenthetical
  \<open>(field1: $field1, field2: $field2)\<close>; a type that is absent or empty is replaced by
  \<open>String!\<close>. For an empty \<open>paramsMapping\<close> the document has neither parenthetical.
\<close>

theorem createScript_parentheticals:
  "(paramsMapping \<noteq> [] \<longrightarrow>
      createScript lib scriptType nm resultSchema paramsMapping =
        scriptTypeString scriptType @ '' '' @ createOperationName lib nm @ '' ('' @
        join [CHR 0x0A]
          (map (\<lambda>(fName, fType). ''$'' @ fName @ '': '' @ paramType fType) paramsMapping) @
        '') { '' @ nm @ '' ('' @
        join '', '' (map (\<lambda>(fName, fType). fName @ '': $'' @ fName) paramsMapping) @
        '')'' @ resultSchemaString resultSchema @ '' }'') \<and>
   createScript lib scriptType nm resultSchema [] =
     scriptTypeString scriptType @ '' '' @ createOperationName lib nm @ ''  { '' @ nm @ '' '' @
     resultSchemaString resultSchema @ '' }'' \<and>
   paramType None = ''String!'' \<and> paramType (Some []) = ''String!'' \<and>
   (t \<noteq> [] \<longrightarrow> paramType (Some t) = t)"
  by (simp add: createScript_def Let_def createScript_schema_eq createScript_params_eq
      createScript_preparedParams_def createScript_args_def paramType_def)

theorem createScript_parentheticals_witness:
  "[(''id'', Some ''ID!''), (''name'', Some [])] \<noteq> [] \<and> ''ID!'' \<noteq> [] \<and>
   (\<forall>lib. createScript lib Query ''getAuthor'' (Some (Literal ''{id}''))
       [(''id'', Some ''ID!''), (''name'', Some [])] =
     ''query GET_AUTHOR ($id: ID!'' @ [CHR 0x0A] @
     ''$name: String!) { getAuthor (id: $id, name: $name){id} }'') \<and>
   paramType (Some ''ID!'') = ''ID!''"
proof (intro conjI allI)
  fix lib
  show "createScript lib Query ''getAuthor'' (Some (Literal ''{id}''))
       [(''id'', Some ''ID!''), (''name'', Some [])] =
     ''query GET_AUTHOR ($id: ID!'' @ [CHR 0x0A] @
     ''$name: String!) { getAuthor (id: $id, name: $name){id} }''"
    using createScript_parentheticals
      [of "[(''id'', Some ''ID!''), (''name'', Some [])]" lib Query "''getAuthor''"
          "Some (Literal ''{id}'')" "''ID!''"]
    by (simp add: createOperationName_getAuthor paramType_def resultSchemaString_def
        scriptTypeString_def)
qed (simp_all add: paramType_def)

theorem createScript_comma_counterexample:
  "\<forall>lib.
     createScript lib Query ''getAuthor'' None
         [(''id'', Some ''ID!''), (''name'', Some ''String'')] =
       ''query GET_AUTHOR ($id: ID!'' @ [CHR 0x0A] @
       ''$name: String) { getAuthor (id: $id, name: $name)null }'' \<and>
     createScript lib Query ''getAuthor'' None
         [(''id'', Some ''ID!''), (''name'', Some ''String'')] \<noteq>
       ''query GET_AUTHOR ($id: ID!, $name: String) { getAuthor (id: $id, name: $name)null }''"
  by (simp add: script_defs)

text \<open>
  C4, in the form that holds of the code. \<open>createOperationName("getAuthor")\<close> is
  \<open>GET_AUTHOR\<close>, and for a builder whose selection is the simple fields \<open>id\<close> and
  \<open>name\<close>, \<open>createScript\<close> without parameters returns
  \<open>query GET_AUTHOR  { getAuthor {id name} }\<close>: the builder is serialized by
  \<open>build(false)\<close>, without its name.
\<close>

theorem createScript_getAuthor:
  "simple n = [''id'', ''name''] \<Longrightarrow> complex n = [] \<Longrightarrow>
   createOperationName lib ''getAuthor'' = ''GET_AUTHOR'' \<and>
   createScript lib Query ''getAuthor'' (Some (Builder n)) [] =
     ''query GET_AUTHOR  { getAuthor {id name} }''"
  by (simp add: script_defs build_def)

theorem createScript_getAuthor_witness:
  "simple authorDefault = [''id'', ''name''] \<and> complex authorDefault = [] \<and>
   (\<forall>lib. createScript lib Query ''getAuthor'' (Some (Builder authorDefault)) [] =
     ''query GET_AUTHOR  { getAuthor {id name} }'')"
proof -
  have s: "simple authorDefault = [''id'', ''name'']" and c: "complex authorDefault = []"
    by (simp_all add: authorDefault_eq)
  from createScript_getAuthor [OF s c] s c show ?thesis by simp
qed

theorem createScript_getAuthor_counterexample:
  "build True authorDefault = ''author {id name}'' \<and>
   (\<forall>lib. createScript lib Query ''getAuthor'' (Some (Builder authorDefault)) [] \<noteq>
     ''query GET_AUTHOR  { getAuthor  author {id name} }'')"
  by (simp add: authorDefault_eq script_defs build_def nameString_def)

section \<open>The selection of a builder\<close>

lemma build_eq:
  "build b t =
     (if b then nameString (name t) @ '' '' else []) @
     fieldsBlock (simple t @ map snd (complex t))"
  by (simp add: build_def Let_def fieldsBlock_def)

lemma fieldsBlock_append:
  "fieldsBlock (xs @ ys) =
     (if xs = [] \<and> ys = [] then []
      else ''{'' @ join '' '' xs @ (if xs \<noteq> [] \<and> ys \<noteq> [] then '' '' else []) @
           join '' '' ys @ ''}'')"
  by (auto simp: fieldsBlock_def join_append)

lemma add_simple_prefix: "prefix (simple t) (simple (add fs t))"
  unfolding add_simple by (rule fold_Set_add_prefix)

lemma add_complex_prefix: "prefix (map fst (complex t)) (map fst (complex (add fs t)))"
  unfolding add_complex by (rule fold_attachDefault_prefix)

lemma fieldKey_registered_complex:
  "originComplex_has t f \<Longrightarrow> fieldKey t f \<noteq> SIMPLE"
  by (simp add: fieldKey_def)

lemma fieldKey_unknown:
  "\<not> originComplex_has t f \<Longrightarrow> f \<notin> set (originSimple t) \<Longrightarrow> fieldKey t f = UNDEFINED"
  by (simp add: fieldKey_def)

lemma add_unknown:
  assumes "\<forall>f \<in> set fs. \<not> originComplex_has t f \<and> f \<notin> set (originSimple t)"
  shows "add fs t = t"
proof -
  from assms have u: "\<forall>f \<in> set fs. fieldKey t f = UNDEFINED"
    by (simp add: fieldKey_unknown)
  then have "filter (\<lambda>f. fieldKey t f = COMPLEX) fs = []"
    and "filter (\<lambda>f. fieldKey t f = SIMPLE) fs = []"
    by (simp_all add: filter_empty_conv)
  then show ?thesis by (simp add: add_def Let_def groupFields_filter)
qed

lemma addComplex_unregistered:
  "name c = None \<or> name c = Some [] \<or> \<not> originComplex_has t (nameString (name c)) \<Longrightarrow>
   addComplex (Some c) t = t"
  by (auto simp: addComplex_def nameString_def split: option.splits)

lemma remove_unselected:
  "f \<notin> set (simple t) \<Longrightarrow> \<not> Map_has (complex t) f \<Longrightarrow> remove f t = t"
  by (simp add: remove_def Set_delete_absent Map_delete_absent)

text \<open>
  C8. In every state reached from the constructor by calls of \<open>add\<close>, \<open>remove\<close>,
  \<open>set\<close>, \<open>clear\<close>, \<open>addComplex\<close>, \<open>getComplex\<close>, \<open>useSimpleOnly\<close> and \<open>build\<close>, the
  selected simple fields are among the simple fields of the registry and the keys of the
  selected complex fields are among the keys of its complex fields; the registry is the
  one the constructor made.
\<close>

theorem selection_within_registry:
  assumes "constructor simpleFields nm initFields infoAboutComplex = Inr n0"
  shows "set (simple (run ops n0)) \<subseteq> set (originSimple (run ops n0)) \<and>
         fst ` set (complex (run ops n0)) \<subseteq> originComplex_keys (run ops n0) \<and>
         originSimple (run ops n0) = originSimple n0 \<and>
         originComplex (run ops n0) = originComplex n0"
proof -
  have "selection_within_origin n0" using assms by (rule constructor_selection)
  then have "selection_within_origin (run ops n0)" by (rule selection_within_origin_run)
  then show ?thesis by (simp add: selection_within_origin_def)
qed

theorem selection_within_registry_witness:
  "AuthorSchemaBuilder (Some ''author'') [] = Inr authorDefault \<and>
   set (simple (run [Add [''books'', ''age''], Remove ''id'',
     AddComplex (Some (PublisherInit ''publisher''))] authorDefault))
     \<subseteq> set (originSimple (run [Add [''books'', ''age''], Remove ''id'',
     AddComplex (Some (PublisherInit ''publisher''))] authorDefault)) \<and>
   fst ` set (complex (run [Add [''books'', ''age''], Remove ''id'',
     AddComplex (Some (PublisherInit ''publisher''))] authorDefault))
     \<subseteq> originComplex_keys (run [Add [''books'', ''age''], Remove ''id'',
     AddComplex (Some (PublisherInit ''publisher''))] authorDefault) \<and>
   simple (run [Add [''books'', ''age''], Remove ''id'',
     AddComplex (Some (PublisherInit ''publisher''))] authorDefault) = [''name''] \<and>
   map fst (complex (run [Add [''books'', ''age''], Remove ''id'',
     AddComplex (Some (PublisherInit ''publisher''))] authorDefault)) = [''books'']"
proof -
  let ?ops = "[Add [''books'', ''age''], Remove ''id'',
     AddComplex (Some (PublisherInit ''publisher''))]"
  have e: "AuthorSchemaBuilder (Some ''author'') [] = Inr authorDefault"
    by (rule AuthorSchemaBuilder_author)
  have s: "simple (run ?ops authorDefault) = [''name'']"
    by (simp add: run_def authorDefault_eq BookInit_eq PublisherInit_eq builder_defs
        container_defs)
  have c: "map fst (complex (run ?ops authorDefault)) = [''books'']"
    by (simp add: run_def authorDefault_eq BookInit_eq PublisherInit_eq builder_defs
        container_defs)
  from selection_within_registry [OF e [unfolded AuthorSchemaBuilder_def], of ?ops] e s c
  show ?thesis by blast
qed









lemma complex_entries_named_cong:
  "complex t' = complex t \<Longrightarrow> complex_entries_named t' = complex_entries_named t"
  by (simp add: complex_entries_named_def)












text \<open>
  C9, in the form that holds of the code. \<open>add\<close> with names that are neither simple nor complex fields of the
  registry leaves the builder as it is; \<open>set\<close> with such names leaves it as \<open>clear\<close>
  does, with nothing selected; \<open>addComplex\<close> with an absent value, with a builder whose
  name is \<open>null\<close> or empty, or with one whose name is not a registered complex field
  leaves the builder as it is; \<open>remove\<close> of a field that is not selected leaves it as
  it is. Each of them returns a builder and none raises.
\<close>

theorem invalid_input_is_ignored:
  "((\<forall>x \<in> set fields. \<not> originComplex_has this x \<and> x \<notin> set (originSimple this)) \<longrightarrow>
      add fields this = this \<and> set_fields fields this = clear this) \<and>
   addComplex None this = this \<and>
   (name c = None \<or> name c = Some [] \<or> \<not> originComplex_has this (nameString (name c)) \<longrightarrow>
      addComplex (Some c) this = this) \<and>
   (field \<notin> set (simple this) \<and> \<not> Map_has (complex this) field \<longrightarrow>
      remove field this = this)"
proof (intro conjI impI)
  assume u: "\<forall>x \<in> set fields. \<not> originComplex_has this x \<and> x \<notin> set (originSimple this)"
  then show "add fields this = this" by (rule add_unknown)
  have "originComplex_has (clear this) = originComplex_has this"
    by (rule originComplex_has_cong) simp
  with u have "\<forall>x \<in> set fields.
      \<not> originComplex_has (clear this) x \<and> x \<notin> set (originSimple (clear this))"
    by simp
  then show "set_fields fields this = clear this"
    unfolding set_fields_def by (rule add_unknown)
next
  show "addComplex None this = this" by (simp add: addComplex_def)
next
  assume "name c = None \<or> name c = Some [] \<or> \<not> originComplex_has this (nameString (name c))"
  then show "addComplex (Some c) this = this" by (rule addComplex_unregistered)
next
  assume "field \<notin> set (simple this) \<and> \<not> Map_has (complex this) field"
  then show "remove field this = this" by (simp add: remove_unselected)
qed

theorem invalid_input_is_ignored_witness:
  "\<not> originComplex_has authorDefault ''doesNotExist'' \<and>
   ''doesNotExist'' \<notin> set (originSimple authorDefault) \<and>
   add [''doesNotExist''] authorDefault = authorDefault \<and>
   set_fields [''doesNotExist''] authorDefault = clear authorDefault \<and>
   name (PublisherInit ''publisher'') = Some ''publisher'' \<and>
   \<not> originComplex_has authorDefault ''publisher'' \<and>
   addComplex (Some (PublisherInit ''publisher'')) authorDefault = authorDefault \<and>
   ''books'' \<notin> set (simple authorDefault) \<and> \<not> Map_has (complex authorDefault) ''books'' \<and>
   remove ''books'' authorDefault = authorDefault"
proof -
  have a: "\<not> originComplex_has authorDefault ''doesNotExist''"
    "''doesNotExist'' \<notin> set (originSimple authorDefault)"
    "name (PublisherInit ''publisher'') = Some ''publisher''"
    "\<not> originComplex_has authorDefault ''publisher''"
    "''books'' \<notin> set (simple authorDefault)" "\<not> Map_has (complex authorDefault) ''books''"
    by (simp_all add: authorDefault_eq PublisherInit_eq originComplex_has_def Map_has_def)
  with invalid_input_is_ignored
    [of "[''doesNotExist'']" authorDefault "PublisherInit ''publisher''" "''books''"]
  show ?thesis by (simp add: nameString_def)
qed

theorem set_unknown_field_counterexample:
  "\<not> originComplex_has authorDefault ''doesNotExist'' \<and>
   ''doesNotExist'' \<notin> set (originSimple authorDefault) \<and>
   simple authorDefault = [''id'', ''name''] \<and>
   simple (set_fields [''doesNotExist''] authorDefault) = []"
  by (simp add: authorDefault_eq builder_defs container_defs)

lemma add_depends_on_groups:
  "filter (\<lambda>x. fieldKey t x = COMPLEX) fs = filter (\<lambda>x. fieldKey t x = COMPLEX) gs \<Longrightarrow>
   filter (\<lambda>x. fieldKey t x = SIMPLE) fs = filter (\<lambda>x. fieldKey t x = SIMPLE) gs \<Longrightarrow>
   add fs t = add gs t"
  by (simp add: add_def Let_def groupFields_filter)

lemma add_simple_first:
  "add fs t =
     add (filter (\<lambda>x. fieldKey t x = SIMPLE) fs @ filter (\<lambda>x. fieldKey t x = COMPLEX) fs) t"
  by (rule add_depends_on_groups) (simp_all cong: conj_cong)

lemma add_complex_first:
  "add fs t =
     add (filter (\<lambda>x. fieldKey t x = COMPLEX) fs @ filter (\<lambda>x. fieldKey t x = SIMPLE) fs) t"
  by (rule add_depends_on_groups) (simp_all cong: conj_cong)

text \<open>
  C2. After any sequence of calls, \<open>build\<close> returns the name part followed by one
  brace pair that holds the selected simple fields in the order of \<open>_simple\<close>, then the
  strings of the selected complex fields in the order of \<open>_complex\<close>, separated by
  single spaces; with nothing selected there is no brace pair. \<open>add\<close> and
  \<open>addComplex\<close> keep the fields already selected in their places and put new ones
  behind them, and \<open>add\<close> of a list of names does what it does for the same names
  with the simple ones moved to the front, or the complex ones.
\<close>

theorem build_simple_before_complex:
  "build b (run ops this) =
     (if b then nameString (name this) @ '' '' else []) @
     (if simple (run ops this) = [] \<and> complex (run ops this) = [] then []
      else ''{'' @ join '' '' (simple (run ops this)) @
           (if simple (run ops this) \<noteq> [] \<and> complex (run ops this) \<noteq> [] then '' '' else []) @
           join '' '' (map snd (complex (run ops this))) @ ''}'') \<and>
   prefix (simple this) (simple (add fields this)) \<and>
   prefix (map fst (complex this)) (map fst (complex (add fields this))) \<and>
   simple (addComplex c this) = simple this \<and>
   prefix (map fst (complex this)) (map fst (complex (addComplex c this))) \<and>
   add fields this =
     add (filter (\<lambda>x. fieldKey this x = SIMPLE) fields @
          filter (\<lambda>x. fieldKey this x = COMPLEX) fields) this \<and>
   add fields this =
     add (filter (\<lambda>x. fieldKey this x = COMPLEX) fields @
          filter (\<lambda>x. fieldKey this x = SIMPLE) fields) this"
proof (intro conjI)
  show "build b (run ops this) =
     (if b then nameString (name this) @ '' '' else []) @
     (if simple (run ops this) = [] \<and> complex (run ops this) = [] then []
      else ''{'' @ join '' '' (simple (run ops this)) @
           (if simple (run ops this) \<noteq> [] \<and> complex (run ops this) \<noteq> [] then '' '' else []) @
           join '' '' (map snd (complex (run ops this))) @ ''}'')"
    by (simp add: build_eq fieldsBlock_append)
  show "prefix (simple this) (simple (add fields this))" by (rule add_simple_prefix)
  show "prefix (map fst (complex this)) (map fst (complex (add fields this)))"
    by (rule add_complex_prefix)
  show "simple (addComplex c this) = simple this" by simp
  show "prefix (map fst (complex this)) (map fst (complex (addComplex c this)))"
    by (rule addComplex_prefix)
  show "add fields this =
     add (filter (\<lambda>x. fieldKey this x = SIMPLE) fields @
          filter (\<lambda>x. fieldKey this x = COMPLEX) fields) this"
    by (rule add_simple_first)
  show "add fields this =
     add (filter (\<lambda>x. fieldKey this x = COMPLEX) fields @
          filter (\<lambda>x. fieldKey this x = SIMPLE) fields) this"
    by (rule add_complex_first)
qed

theorem build_simple_before_complex_witness:
  "build True (run [SetFields [''books'', ''name''], Add [''id'']] authorDefault) =
     ''author {name id books {title}}'' \<and>
   build True (run [Clear] authorDefault) = ''author '' \<and>
   build True (run [Clear, AddComplex (Some (BookInit ''books'')), Add [''name'']] authorDefault) =
     ''author {name books {title}}''"
  using build_simple_before_complex
    [of True "[SetFields [''books'', ''name''], Add [''id'']]" authorDefault]
  by (simp add: run_def authorDefault_eq BookInit_eq builder_defs container_defs)

section \<open>Builders in a store\<close>

lemma call_other: "r' \<noteq> r \<Longrightarrow> call r oper h r' = h r'"
  by (simp add: call_def)

lemma call_same: "call r oper h r = exec (map_operation h oper) (h r)"
  by (simp add: call_def)

lemma call_name: "name (call r oper h r') = name (h r')"
  by (simp add: call_def)

lemma calls_other: "\<forall>x \<in> set cs. fst x \<noteq> p \<Longrightarrow> calls cs h p = h p"
  unfolding calls_def by (induction cs arbitrary: h) (auto simp: call_other)

lemma calls_name: "name (calls cs h r) = name (h r)"
  unfolding calls_def by (induction cs arbitrary: h) (auto simp: call_name)

lemma addComplex_registered:
  "name c = Some k \<Longrightarrow> k \<noteq> [] \<Longrightarrow> originComplex_has t k \<Longrightarrow>
   complex (addComplex (Some c) t) = Map_set k (build True c) (complex t)"
  by (simp add: addComplex_def)

text \<open>
  C5. Let the child at reference \<open>c\<close> be attached to the parent at another reference
  \<open>p\<close> by \<open>p.addComplex(c)\<close>. After any later calls on \<open>c\<close>, \<open>build\<close> of the parent
  returns what it returned after the attachment; when the attachment stored an entry
  (the name of the child is a registered complex field of the parent), that entry is
  still the string \<open>c.build()\<close> returned at the time of the attachment, and calling
  \<open>p.addComplex(c)\<close> again replaces it by the string \<open>c.build()\<close> returns then.
\<close>

theorem snapshot_attachment:
  assumes "p \<noteq> c"
  shows "build b (calls (map (Pair c) ops) (call p (AddComplex (Some c)) h) p) =
           build b (call p (AddComplex (Some c)) h p) \<and>
         (name (h c) = Some k \<and> k \<noteq> [] \<and> originComplex_has (h p) k \<longrightarrow>
            Map_get (complex (calls (map (Pair c) ops) (call p (AddComplex (Some c)) h) p)) k =
              Some (build True (h c)) \<and>
            Map_get (complex (call p (AddComplex (Some c))
                (calls (map (Pair c) ops) (call p (AddComplex (Some c)) h)) p)) k =
              Some (build True (calls (map (Pair c) ops) (call p (AddComplex (Some c)) h) c)))"
proof -
  let ?h1 = "call p (AddComplex (Some c)) h"
  let ?h2 = "calls (map (Pair c) ops) ?h1"
  have "\<forall>x \<in> set (map (Pair c) ops). fst x \<noteq> p" using assms by auto
  then have frame: "?h2 p = ?h1 p" by (rule calls_other)
  have h1p: "?h1 p = addComplex (Some (h c)) (h p)" by (simp add: call_same)
  have again: "call p (AddComplex (Some c)) ?h2 p = addComplex (Some (?h2 c)) (?h1 p)"
    by (simp add: call_same frame)
  have nm: "name (?h2 c) = name (h c)" by (simp add: calls_name call_name)
  have reg: "originComplex_has (?h1 p) = originComplex_has (h p)"
    by (rule originComplex_has_cong) (simp add: h1p)
  {
    assume k: "name (h c) = Some k" "k \<noteq> []" "originComplex_has (h p) k"
    have "complex (?h1 p) = Map_set k (build True (h c)) (complex (h p))"
      unfolding h1p using k by (rule addComplex_registered)
    then have 1: "Map_get (complex (?h2 p)) k = Some (build True (h c))"
      by (simp add: frame Map_set_get)
    have "complex (addComplex (Some (?h2 c)) (?h1 p)) =
        Map_set k (build True (?h2 c)) (complex (?h1 p))"
      using k by (intro addComplex_registered) (simp_all add: nm reg)
    then have 2: "Map_get (complex (call p (AddComplex (Some c)) ?h2 p)) k =
        Some (build True (?h2 c))"
      by (simp add: again Map_set_get)
    note 1 2
  }
  then show ?thesis by (simp add: frame)
qed

theorem snapshot_attachment_witness:
  "(0::nat) \<noteq> 1 \<and>
   name (exampleStore 1) = Some ''books'' \<and> ''books'' \<noteq> [] \<and>
   originComplex_has (exampleStore 0) ''books'' \<and>
   build True (call 0 (AddComplex (Some 1)) exampleStore 0) = ''author {books {title}}'' \<and>
   build True (calls (map (Pair 1) [SetFields [''publisher'']])
       (call 0 (AddComplex (Some 1)) exampleStore) 0) = ''author {books {title}}'' \<and>
   Map_get (complex (calls (map (Pair 1) [SetFields [''publisher'']])
       (call 0 (AddComplex (Some 1)) exampleStore) 0)) ''books'' = Some ''books {title}'' \<and>
   build True (calls (map (Pair 1) [SetFields [''publisher'']])
       (call 0 (AddComplex (Some 1)) exampleStore) 1) = ''books {publisher {name address}}''"
proof -
  have n: "(0::nat) \<noteq> 1" by simp
  have k: "name (exampleStore 1) = Some ''books''" "''books'' \<noteq> []"
    "originComplex_has (exampleStore 0) ''books''"
    by (simp_all add: exampleStore_def authorDefault_eq BookInit_eq clear_def with_simple_def
        with_complex_def originComplex_has_def Map_has_def)
  have b1: "build True (exampleStore 1) = ''books {title}''"
    by (simp add: exampleStore_def BookInit_eq build_def nameString_def)
  have b0: "build True (call 0 (AddComplex (Some 1)) exampleStore 0) = ''author {books {title}}''"
    by (simp add: call_def exampleStore_def authorDefault_eq BookInit_eq builder_defs
        container_defs)
  have c1: "build True (calls (map (Pair 1) [SetFields [''publisher'']])
       (call 0 (AddComplex (Some 1)) exampleStore) 1) = ''books {publisher {name address}}''"
    by (simp add: calls_def call_def exampleStore_def authorDefault_eq BookInit_eq
        PublisherInit_eq builder_defs container_defs)
  from snapshot_attachment [OF n, of True "[SetFields [''publisher'']]" exampleStore "''books''"]
    n k b1 b0 c1
  show ?thesis by simp
qed

section \<open>Default population\<close>

lemma fold_Set_add_Nil: "distinct xs \<Longrightarrow> fold Set_add xs [] = xs"
  using fold_Set_add_fresh [of xs "[]"] by simp

lemma fold_attachAll_named:
  assumes "originComplex t = Some oc" and "distinct (map fst xs)" and "set xs \<subseteq> set oc"
    and "fst ` set xs \<inter> fst ` set (complex t) = {}"
    and "\<forall>x \<in> set xs. fst x \<noteq> [] \<and> name (snd x (fst x)) = Some (fst x)"
  shows "complex (fold (\<lambda>(field, builderInit). addComplex (Some (builderInit field))) xs t) =
           complex t @ map (\<lambda>(field, builderInit). (field, build True (builderInit field))) xs"
  using assms
proof (induction xs arbitrary: t)
  case Nil
  show ?case by simp
next
  case (Cons x xs)
  obtain field builderInit where x: "x = (field, builderInit)" by (cases x)
  let ?t = "addComplex (Some (builderInit field)) t"
  have named: "field \<noteq> []" "name (builderInit field) = Some field"
    using Cons.prems(5) by (simp_all add: x)
  have "(field, builderInit) \<in> set oc" using Cons.prems(3) by (simp add: x)
  then have "field \<in> fst ` set oc" by force
  then have reg: "originComplex_has t field"
    by (simp add: originComplex_has_def Cons.prems(1) Map_has_def)
  have fresh: "field \<notin> fst ` set (complex t)" using Cons.prems(4) by (auto simp: x)
  have c: "complex ?t = complex t @ [(field, build True (builderInit field))]"
    using addComplex_registered [OF named(2) named(1) reg] fresh by (simp add: Map_set_fresh)
  have "complex (fold (\<lambda>(field, builderInit). addComplex (Some (builderInit field))) xs ?t) =
      complex ?t @ map (\<lambda>(field, builderInit). (field, build True (builderInit field))) xs"
  proof (rule Cons.IH)
    show "originComplex ?t = Some oc" by (simp add: Cons.prems(1))
    show "distinct (map fst xs)" using Cons.prems(2) by simp
    show "set xs \<subseteq> set oc" using Cons.prems(3) by simp
    show "fst ` set xs \<inter> fst ` set (complex ?t) = {}"
      using Cons.prems(2) Cons.prems(4) by (auto simp: c x)
    show "\<forall>x \<in> set xs. fst x \<noteq> [] \<and> name (snd x (fst x)) = Some (fst x)"
      using Cons.prems(5) by simp
  qed
  then show ?case by (simp add: x c)
qed

lemma useSimpleOnly_True_named:
  assumes "originComplex t = Some oc" and "distinct (map fst oc)"
    and "\<forall>x \<in> set oc. fst x \<noteq> [] \<and> name (snd x (fst x)) = Some (fst x)"
  shows "complex (useSimpleOnly True t) =
           map (\<lambda>(field, builderInit). (field, build True (builderInit field))) oc"
proof -
  let ?t = "with_complex [] (with_simple (fold Set_add (originSimple t) []) t)"
  have "complex (fold (\<lambda>(field, builderInit). addComplex (Some (builderInit field))) oc ?t) =
      complex ?t @ map (\<lambda>(field, builderInit). (field, build True (builderInit field))) oc"
    by (rule fold_attachAll_named [OF _ assms(2) subset_refl _ assms(3)])
      (simp_all add: assms(1))
  then show ?thesis by (simp add: useSimpleOnly_True_complex [OF assms(1)])
qed

lemma no_registry_no_complex:
  "selection_within_origin t \<Longrightarrow> originComplex t = None \<Longrightarrow> complex t = []"
  by (simp add: selection_within_origin_def originComplex_keys_def)

text \<open>
  C6, in the form that holds of the code. A builder constructed with an absent or empty
  initial field list, and any builder reached from the constructor after
  \<open>useSimpleOnly(false)\<close>, has \<open>_simple\<close> equal to \<open>_originSimple\<close> and \<open>_complex\<close>
  empty. After \<open>useSimpleOnly(true)\<close>, \<open>_simple\<close> equals \<open>_originSimple\<close>; and when
  every registered complex field has a non-empty name and its factory returns for it a
  builder of that name, \<open>_complex\<close> has one entry for every registered complex field,
  in the order of the registry, with the string \<open>build\<close> returns for the builder of the
  factory. For a child with the default selection (its own simple fields, no complex
  field) that string is the name, a space and the brace block of its simple fields.
\<close>

theorem default_population:
  assumes "constructor simpleFields nm initFields infoAboutComplex = Inr n0"
  shows "(initFields = None \<or> initFields = Some [] \<longrightarrow>
            simple n0 = originSimple n0 \<and> complex n0 = []) \<and>
         simple (useSimpleOnly False (run ops n0)) = originSimple n0 \<and>
         complex (useSimpleOnly False (run ops n0)) = [] \<and>
         simple (useSimpleOnly True (run ops n0)) = originSimple n0 \<and>
         ((\<forall>x \<in> set (Map_new infoAboutComplex).
             fst x \<noteq> [] \<and> name (snd x (fst x)) = Some (fst x)) \<longrightarrow>
          complex (useSimpleOnly True (run ops n0)) =
            map (\<lambda>(field, builderInit). (field, build True (builderInit field)))
              (Map_new infoAboutComplex)) \<and>
         (name c = Some field \<and> simple c = originSimple c \<and> complex c = [] \<longrightarrow>
          build True c = field @ '' '' @ fieldsBlock (originSimple c))"
proof -
  let ?n = "run ops n0"
  have d: "distinct (originSimple n0)" using assms by (rule constructor_origin_set(2))
  have oc: "originComplex n0 =
      (if infoAboutComplex = [] then None else Some (Map_new infoAboutComplex))"
    using assms by (rule constructor_frame(3))
  have inv0: "selection_within_origin n0" using assms by (rule constructor_selection)
  then have inv: "selection_within_origin ?n" by (rule selection_within_origin_run)
  have s: "\<And>b. simple (useSimpleOnly b ?n) = originSimple n0"
    by (simp add: useSimpleOnly_simple fold_Set_add_Nil d)
  have c: "complex (useSimpleOnly False ?n) = []"
    using no_registry_no_complex [OF inv]
    by (simp add: useSimpleOnly_False_complex split: option.splits)
  have a: "simple n0 = originSimple n0 \<and> complex n0 = []"
    if "initFields = None \<or> initFields = Some []"
  proof -
    from assms obtain t where t: "simple t = []" "complex t = []"
      and n0: "n0 = (case initFields of None \<Rightarrow> useSimpleOnly False t
           | Some fs \<Rightarrow> if fs = [] then useSimpleOnly False t else add fs t)"
      by (rule constructor_cases)
    from that n0 have e: "n0 = useSimpleOnly False t" by auto
    have "originSimple t = originSimple n0" by (simp add: e)
    then have "simple n0 = originSimple n0"
      using d by (simp add: e useSimpleOnly_simple fold_Set_add_Nil)
    moreover have "complex n0 = []"
      by (simp add: e useSimpleOnly_False_complex t split: option.splits)
    ultimately show ?thesis by simp
  qed
  have t: "complex (useSimpleOnly True ?n) =
            map (\<lambda>(field, builderInit). (field, build True (builderInit field)))
              (Map_new infoAboutComplex)"
    if h: "\<forall>x \<in> set (Map_new infoAboutComplex).
             fst x \<noteq> [] \<and> name (snd x (fst x)) = Some (fst x)"
  proof (cases "infoAboutComplex = []")
    case True
    then have "originComplex ?n = None" by (simp add: oc)
    then have "complex (useSimpleOnly True ?n) = []"
      using no_registry_no_complex [OF inv] by (simp add: useSimpleOnly_None_complex)
    then show ?thesis using True by (simp add: Map_new_def)
  next
    case False
    then have o: "originComplex ?n = Some (Map_new infoAboutComplex)" by (simp add: oc)
    show ?thesis using o Map_new_distinct h by (rule useSimpleOnly_True_named)
  qed
  have b: "build True c = field @ '' '' @ fieldsBlock (originSimple c)"
    if "name c = Some field \<and> simple c = originSimple c \<and> complex c = []"
    using that by (simp add: build_eq nameString_def)
  from a s c t b show ?thesis by blast
qed

theorem default_population_witness:
  "AuthorSchemaBuilder (Some ''author'') [] = Inr authorDefault \<and>
   simple authorDefault = [''id'', ''name''] \<and> complex authorDefault = [] \<and>
   originSimple authorDefault = [''id'', ''name''] \<and>
   Map_new [(''books'', BookInit)] = [(''books'', BookInit)] \<and>
   name (BookInit ''books'') = Some ''books'' \<and>
   simple (BookInit ''books'') = originSimple (BookInit ''books'') \<and>
   complex (BookInit ''books'') = [] \<and>
   build True (BookInit ''books'') = ''books {title}'' \<and>
   simple (useSimpleOnly True (run [Clear] authorDefault)) = [''id'', ''name''] \<and>
   complex (useSimpleOnly True (run [Clear] authorDefault)) = [(''books'', ''books {title}'')] \<and>
   simple (useSimpleOnly False (run [Add [''books'']] authorDefault)) = [''id'', ''name''] \<and>
   complex (useSimpleOnly False (run [Add [''books'']] authorDefault)) = []"
proof -
  have e: "constructor [''id'', ''name'', ''books''] (Some ''author'') (Some [])
             [(''books'', BookInit)] = Inr authorDefault"
    using AuthorSchemaBuilder_author by (simp add: AuthorSchemaBuilder_def)
  have m: "Map_new [(''books'', BookInit)] = [(''books'', BookInit)]"
    by (simp add: Map_new_def Map_set_def)
  have f: "name (BookInit ''books'') = Some ''books''"
    "simple (BookInit ''books'') = originSimple (BookInit ''books'')"
    "complex (BookInit ''books'') = []" "originSimple (BookInit ''books'') = [''title'']"
    "originSimple authorDefault = [''id'', ''name'']"
    by (simp_all add: BookInit_eq authorDefault_eq)
  from default_population [OF e, of "[Clear]" "BookInit ''books''" "''books''"]
    default_population [OF e, of "[Add [''books'']]" "BookInit ''books''" "''books''"]
    AuthorSchemaBuilder_author m f
  show ?thesis by (simp add: fieldsBlock_def)
qed

theorem unnamed_factory_counterexample:
  "originComplex_keys bookWithUnnamedPublisher = {''publisher''} \<and>
   simple (useSimpleOnly True bookWithUnnamedPublisher) = [''title''] \<and>
   complex (useSimpleOnly True bookWithUnnamedPublisher) = []"
  by (simp add: bookWithUnnamedPublisher_def PublisherInit_unnamed_eq builder_defs
      container_defs)

end
